theory Spec2Isabelle
  imports Main "HOL-Library.Sublist" "HOL-Library.AList"
begin

section \<open>Python values and text\<close>

text \<open>
  A Python \<^verbatim>\<open>str\<close> is the list of its Unicode code points. \<open>pstr\<close> writes an ASCII
  literal as such a list.
\<close>

type_synonym pystr = "nat list"

definition pstr :: "string \<Rightarrow> pystr" where
  "pstr s = map of_char s"

text \<open>
  The values that \<^verbatim>\<open>json.loads\<close> produces: \<^verbatim>\<open>None\<close>, booleans, integers, floats,
  strings, lists and dictionaries. A dictionary is the list of its items in insertion
  order; a list with a repeated key stands for no Python dictionary. A float is kept as
  mantissa and binary exponent (the finite double \<open>m * 2 ^ e\<close>): the program only tests it
  for truth and hands it on.
\<close>

datatype pyval =
    PNone
  | PBool bool
  | PInt int
  | PFloat int int
  | PStr pystr
  | PList "pyval list"
  | PDict "(pystr \<times> pyval) list"

text \<open>
  What a deal holds: the integer \<^verbatim>\<open>row_number\<close> and the text of the cells (the sheet
  returns every cell as text).
\<close>

datatype dval = DInt nat | DStr pystr

type_synonym deal = "(pystr \<times> dval) list"

text \<open>
  The exceptions the modelled code can raise, and those \<^verbatim>\<open>json.loads\<close> can raise
  (\<^verbatim>\<open>JSONDecodeError\<close> on a text that is not JSON, \<^verbatim>\<open>RecursionError\<close> on one nested too
  deeply, \<^verbatim>\<open>ValueError\<close> on an integer literal that is too long).
\<close>

datatype error =
  AttributeError | KeyError | IndexError | JSONDecodeError | RecursionError | ValueError

text \<open>
  \<^verbatim>\<open>str.lower\<close> is the library's: it follows the Unicode tables and lowers a capital
  sigma by its context. The model takes it as the parameter \<open>lower\<close> of every function
  that calls it. \<open>ascii_lower\<close> is what it does on ASCII text.
\<close>

definition ascii_lower :: "pystr \<Rightarrow> pystr" where
  "ascii_lower s = map (\<lambda>c. if 65 \<le> c \<and> c \<le> 90 then c + 32 else c) s"

text \<open>\<^verbatim>\<open>s.replace(' ', '_')\<close>: both arguments are single characters.\<close>

definition replace_space :: "pystr \<Rightarrow> pystr" where
  "replace_space s = map (\<lambda>c. if c = 32 then 95 else c) s"

text \<open>\<^verbatim>\<open>needle in hay\<close> on strings: \<open>needle\<close> occurs in \<open>hay\<close> as a contiguous block.\<close>

fun py_in :: "pystr \<Rightarrow> pystr \<Rightarrow> bool" where
  "py_in needle [] = (needle = [])"
| "py_in needle (c # cs) = (prefix needle (c # cs) \<or> py_in needle cs)"

text \<open>Truth value of a Python value (\<^verbatim>\<open>if v:\<close>).\<close>

fun truthy :: "pyval \<Rightarrow> bool" where
  "truthy PNone = False"
| "truthy (PBool b) = b"
| "truthy (PInt n) = (n \<noteq> 0)"
| "truthy (PFloat m e) = (m \<noteq> 0)"
| "truthy (PStr s) = (s \<noteq> [])"
| "truthy (PList xs) = (xs \<noteq> [])"
| "truthy (PDict kvs) = (kvs \<noteq> [])"

text \<open>\<^verbatim>\<open>v.lower()\<close>: only a string has the method.\<close>

fun lower_method :: "(pystr \<Rightarrow> pystr) \<Rightarrow> pyval \<Rightarrow> error + pystr" where
  "lower_method lower (PStr s) = Inr (lower s)"
| "lower_method lower _ = Inl AttributeError"

fun lower_dval :: "(pystr \<Rightarrow> pystr) \<Rightarrow> dval \<Rightarrow> error + pystr" where
  "lower_dval lower (DStr s) = Inr (lower s)"
| "lower_dval lower (DInt _) = Inl AttributeError"

text \<open>\<^verbatim>\<open>d.get(key, default)\<close> and \<^verbatim>\<open>d.get(key)\<close> on a dictionary.\<close>

definition dict_get :: "('k \<times> 'v) list \<Rightarrow> 'k \<Rightarrow> 'v \<Rightarrow> 'v" where
  "dict_get d k dflt = (case map_of d k of None \<Rightarrow> dflt | Some v \<Rightarrow> v)"

text \<open>
  Decimal text of a natural number, as \<^verbatim>\<open>str(n)\<close> and an f-string print it; the digit
  \<open>d\<close> is the code point \<open>48 + d\<close>.
\<close>

fun show_nat :: "nat \<Rightarrow> pystr" where
  "show_nat n = (if n < 10 then [48 + n] else show_nat (n div 10) @ [48 + n mod 10])"

declare show_nat.simps [simp del]

fun show_dval :: "dval \<Rightarrow> pystr" where
  "show_dval (DInt n) = show_nat n"
| "show_dval (DStr s) = s"

section \<open>pipeline.py: the row store adapter\<close>

text \<open>The static field to column mapping \<^verbatim>\<open>COLUMNS\<close>.\<close>

definition COLUMNS :: "(pystr \<times> pystr) list" where
  "COLUMNS =
    [(pstr ''company_name'', pstr ''A''), (pstr ''contact_name'', pstr ''B''),
     (pstr ''contact_email'', pstr ''C''), (pstr ''contact_phone'', pstr ''D''),
     (pstr ''project_description'', pstr ''E''), (pstr ''date_entered'', pstr ''F''),
     (pstr ''stage'', pstr ''G''), (pstr ''stage_date'', pstr ''H''), (pstr ''notes'', pstr ''I''),
     (pstr ''estimated_mrr'', pstr ''J''), (pstr ''priority'', pstr ''K''),
     (pstr ''next_action_date'', pstr ''L''), (pstr ''next_action'', pstr ''M''),
     (pstr ''lost_reason'', pstr ''N'')]"

definition normalize_header :: "(pystr \<Rightarrow> pystr) \<Rightarrow> pystr \<Rightarrow> pystr" where
  "normalize_header lower header = replace_space (lower header)"

text \<open>
  \<^verbatim>\<open>get_all_deals\<close>. The argument \<open>values\<close> is the grid that the request
  \<^verbatim>\<open>sheets.values().get(range='A:N')\<close> returns (\<^verbatim>\<open>result.get('values', [])\<close>): the rows
  of the sheet, each a list of cell texts. The inner loop assigns
  \<^verbatim>\<open>deal[header] = row[j] if j < len(row) else ''\<close> for each header in turn; the outer
  loop numbers the rows after the first from 2.
\<close>

fun fill_deal :: "nat \<Rightarrow> pystr list \<Rightarrow> pystr list \<Rightarrow> deal \<Rightarrow> deal" where
  "fill_deal j [] row deal = deal"
| "fill_deal j (header # headers) row deal =
     fill_deal (Suc j) headers row
       (AList.update header (DStr (if j < length row then row ! j else [])) deal)"

fun deals_from :: "nat \<Rightarrow> pystr list \<Rightarrow> pystr list list \<Rightarrow> deal list" where
  "deals_from i headers [] = []"
| "deals_from i headers (row # rows) =
     fill_deal 0 headers row [(pstr ''row_number'', DInt i)] # deals_from (Suc i) headers rows"

definition get_all_deals :: "(pystr \<Rightarrow> pystr) \<Rightarrow> pystr list list \<Rightarrow> deal list" where
  "get_all_deals lower values =
     (case values of
        [] \<Rightarrow> []
      | first # rest \<Rightarrow> deals_from 2 (map (normalize_header lower) first) rest)"

text \<open>
  \<^verbatim>\<open>find_deal\<close>: the grid is fetched, the query is lowered (which raises when it is
  not a string), and the first deal whose lowered company name contains it is returned.
\<close>

fun find_loop :: "(pystr \<Rightarrow> pystr) \<Rightarrow> pystr \<Rightarrow> deal list \<Rightarrow> error + deal option" where
  "find_loop lower company_lower [] = Inr None"
| "find_loop lower company_lower (deal # deals) =
     (case lower_dval lower (dict_get deal (pstr ''company_name'') (DStr [])) of
        Inl e \<Rightarrow> Inl e
      | Inr name \<Rightarrow>
          if py_in company_lower name then Inr (Some deal)
          else find_loop lower company_lower deals)"

definition find_deal ::
  "(pystr \<Rightarrow> pystr) \<Rightarrow> pystr list list \<Rightarrow> pyval \<Rightarrow> error + deal option" where
  "find_deal lower values company_name =
     (let deals = get_all_deals lower values in
      case lower_method lower company_name of
        Inl e \<Rightarrow> Inl e
      | Inr company_lower \<Rightarrow> find_loop lower company_lower deals)"

text \<open>
  The requests that change the sheet. \<open>Update range v\<close> is
  \<^verbatim>\<open>sheets.values().update(range=range, valueInputOption='USER_ENTERED', body={'values': [[v]]})\<close>
  and \<open>Append row\<close> is \<^verbatim>\<open>sheets.values().append(range='A:N', body={'values': [row]})\<close>.
  Every function that talks to the sheet returns, next to its result, the requests it
  issued, in order. The requests themselves are taken to succeed.
\<close>

datatype api_call = Update pystr pyval | Append "pyval list"

text \<open>
  An f-string is kept as the list of its parts: the literal text, the interpolated
  values and the interpolated exceptions, not yet printed.
\<close>

datatype piece = Lit pystr | Val pyval | Exc error

type_synonym fstring = "piece list"

fun pyval_of :: "dval \<Rightarrow> pyval" where
  "pyval_of (DInt n) = PInt (int n)"
| "pyval_of (DStr s) = PStr s"

text \<open>
  The loop of \<^verbatim>\<open>update_deal\<close> over \<^verbatim>\<open>updates.items()\<close>: a field that is not in
  \<^verbatim>\<open>COLUMNS\<close> is skipped (\<^verbatim>\<open>continue\<close>), any other is written to the cell
  \<^verbatim>\<open>f'{col}{row}'\<close>.
\<close>

fun update_loop :: "dval \<Rightarrow> (pystr \<times> pyval) list \<Rightarrow> api_call list" where
  "update_loop row [] = []"
| "update_loop row ((field, v) # items) =
     (case map_of COLUMNS field of
        None \<Rightarrow> update_loop row items
      | Some col \<Rightarrow> Update (col @ show_dval row) v # update_loop row items)"

definition update_deal ::
  "(pystr \<Rightarrow> pystr) \<Rightarrow> pystr list list \<Rightarrow> pyval \<Rightarrow> pyval \<Rightarrow> (error + fstring) \<times> api_call list" where
  "update_deal lower values company_name updates =
     (case find_deal lower values company_name of
        Inl e \<Rightarrow> (Inl e, [])
      | Inr None \<Rightarrow>
          (Inr [Lit (pstr (''Could not find a deal for '' @ [CHR 0x27])), Val company_name,
                Lit (pstr [CHR 0x27])], [])
      | Inr (Some deal) \<Rightarrow>
          if deal = [] then
            (Inr [Lit (pstr (''Could not find a deal for '' @ [CHR 0x27])), Val company_name,
                  Lit (pstr [CHR 0x27])], [])
          else
            (case map_of deal (pstr ''row_number'') of
               None \<Rightarrow> (Inl KeyError, [])
             | Some row \<Rightarrow>
                 (case updates of
                    PDict items \<Rightarrow>
                      (Inr [Lit (pstr ''Updated ''), Val company_name, Lit (pstr '': ''),
                            Val updates],
                       update_loop row items)
                  | _ \<Rightarrow> (Inl AttributeError, []))))"

text \<open>\<^verbatim>\<open>add_deal\<close>: the row is built in column order, an unset field is the empty text.\<close>

definition FIELD_ORDER :: "pystr list" where
  "FIELD_ORDER =
    map pstr
      [''company_name'', ''contact_name'', ''contact_email'', ''contact_phone'',
       ''project_description'', ''date_entered'', ''stage'', ''stage_date'',
       ''notes'', ''estimated_mrr'', ''priority'', ''next_action_date'',
       ''next_action'', ''lost_reason'']"

definition add_deal :: "(pystr \<times> pyval) list \<Rightarrow> fstring \<times> api_call list" where
  "add_deal deal_data =
     (let row = map (\<lambda>field. dict_get deal_data field (PStr [])) FIELD_ORDER in
      ([Lit (pstr ''Added new deal: ''), Val (dict_get deal_data (pstr ''company_name'') PNone)],
       [Append row]))"

text \<open>
  \<^verbatim>\<open>list_deals\<close>: the comprehension evaluates, for each deal,
  \<^verbatim>\<open>d.get('stage', '').lower()\<close> and then \<^verbatim>\<open>stage.lower()\<close>.
\<close>

fun stage_filter :: "(pystr \<Rightarrow> pystr) \<Rightarrow> pyval \<Rightarrow> deal list \<Rightarrow> error + deal list" where
  "stage_filter lower stage [] = Inr []"
| "stage_filter lower stage (d # ds) =
     (case lower_dval lower (dict_get d (pstr ''stage'') (DStr [])) of
        Inl e \<Rightarrow> Inl e
      | Inr have \<Rightarrow>
          (case lower_method lower stage of
             Inl e \<Rightarrow> Inl e
           | Inr want \<Rightarrow>
               (case stage_filter lower stage ds of
                  Inl e \<Rightarrow> Inl e
                | Inr rest \<Rightarrow> Inr (if have = want then d # rest else rest))))"

definition list_deals ::
  "(pystr \<Rightarrow> pystr) \<Rightarrow> pystr list list \<Rightarrow> pyval \<Rightarrow> error + deal list" where
  "list_deals lower values stage =
     (let deals = get_all_deals lower values in
      if truthy stage then stage_filter lower stage deals else Inr deals)"

text \<open>
  The remote sheet is not part of the repository. Of its state the model keeps what the
  requests determine: the value last written under each A1 reference, and the rows
  appended (the sheet itself decides where an appended row lands).
\<close>

record sheet =
  cells :: "pystr \<rightharpoonup> pyval"
  appended :: "pyval list list"

fun exec_call :: "api_call \<Rightarrow> sheet \<Rightarrow> sheet" where
  "exec_call (Update rng v) s = s\<lparr>cells := (cells s)(rng \<mapsto> v)\<rparr>"
| "exec_call (Append row) s = s\<lparr>appended := appended s @ [row]\<rparr>"

definition exec_calls :: "api_call list \<Rightarrow> sheet \<Rightarrow> sheet" where
  "exec_calls calls s = fold exec_call calls s"

section \<open>bot.py: the command interpreter and the action executor\<close>

text \<open>
  \<^verbatim>\<open>str.strip()\<close> removes white space at both ends. The white space of a Python
  \<^verbatim>\<open>str\<close> is the code points 9 to 13, 28 to 32, U+0085, U+00A0, U+1680, U+2000 to
  U+200A, U+2028, U+2029, U+202F, U+205F and U+3000.
\<close>

definition py_isspace :: "nat \<Rightarrow> bool" where
  "py_isspace c =
     ((9 \<le> c \<and> c \<le> 13) \<or> (28 \<le> c \<and> c \<le> 32) \<or> c = 0x85 \<or> c = 0xA0 \<or> c = 0x1680 \<or>
      (0x2000 \<le> c \<and> c \<le> 0x200A) \<or> c = 0x2028 \<or> c = 0x2029 \<or> c = 0x202F \<or>
      c = 0x205F \<or> c = 0x3000)"

definition py_strip :: "pystr \<Rightarrow> pystr" where
  "py_strip s = rev (dropWhile py_isspace (rev (dropWhile py_isspace s)))"

text \<open>
  \<^verbatim>\<open>s.split(sep)\<close> for a separator that is not empty (the program only splits at the
  fence): the text is cut at each occurrence of \<open>sep\<close>, found from the left and not
  overlapping.
\<close>

function py_split :: "pystr \<Rightarrow> pystr \<Rightarrow> pystr list" where
  "py_split sep s =
     (if sep \<noteq> [] \<and> prefix sep s then [] # py_split sep (drop (length sep) s)
      else (case s of
              [] \<Rightarrow> [[]]
            | c # cs \<Rightarrow> (case py_split sep cs of [] \<Rightarrow> [[c]] | p # ps \<Rightarrow> (c # p) # ps)))"
  by pat_completeness auto
termination
  by (relation "measure (\<lambda>(sep, s). length s)") (auto simp: prefix_def)

declare py_split.simps [simp del]

text \<open>
  The response parsing of \<^verbatim>\<open>process_command\<close>. \<open>strip_fence\<close> is the text handed to
  \<^verbatim>\<open>json.loads\<close>: the reply stripped and, when it starts with a fence, the second
  part of the split at the fences, without a leading \<^verbatim>\<open>json\<close>.
\<close>

definition fence :: pystr where
  "fence = pstr ''```''"

definition strip_fence :: "pystr \<Rightarrow> error + pystr" where
  "strip_fence reply =
     (let response_text = py_strip reply in
      if prefix fence response_text then
        (case py_split fence response_text of
           _ # second # _ \<Rightarrow> Inr (if prefix (pstr ''json'') second then drop 4 second else second)
         | _ \<Rightarrow> Inl IndexError)
      else Inr response_text)"

text \<open>
  The context block of \<^verbatim>\<open>process_command\<close>: one line per deal, or the marker of the
  empty pipeline.
\<close>

definition context_line :: "deal \<Rightarrow> fstring" where
  "context_line deal =
     [Lit (pstr ''- ''),
      Val (case map_of deal (pstr ''company_name'') of
             None \<Rightarrow> PStr (pstr ''Unknown'') | Some v \<Rightarrow> pyval_of v),
      Lit (pstr '': ''),
      Val (case map_of deal (pstr ''stage'') of
             None \<Rightarrow> PStr (pstr ''No stage'') | Some v \<Rightarrow> pyval_of v),
      Lit (pstr ''\<newline>'')]"

definition deals_context :: "deal list \<Rightarrow> fstring" where
  "deals_context current_deals =
     (if current_deals \<noteq> [] then
        Lit (pstr ''Current deals in pipeline:\<newline>'') # concat (map context_line current_deals)
      else [Lit (pstr ''Pipeline is currently empty.\<newline>'')])"

definition user_content :: "pystr \<Rightarrow> deal list \<Rightarrow> fstring" where
  "user_content user_message current_deals =
     deals_context current_deals
     @ [Lit (pstr ''\<newline>\<newline>User request: ''), Val (PStr user_message)]"

text \<open>
  \<^verbatim>\<open>process_command\<close>. The language model and \<^verbatim>\<open>json.loads\<close> are not code of the
  repository, the model takes both as parameters: \<open>complete\<close> gives, for the content of
  the user message, the text of the reply (\<^verbatim>\<open>response.content[0].text\<close>, under the fixed
  system prompt), and \<open>loads\<close> gives the parsed value, or the exception where the library
  raises one.
\<close>

definition process_command ::
  "(fstring \<Rightarrow> pystr) \<Rightarrow> (pystr \<Rightarrow> error + pyval) \<Rightarrow> pystr \<Rightarrow> deal list \<Rightarrow> error + pyval" where
  "process_command complete loads user_message current_deals =
     (let response = complete (user_content user_message current_deals) in
      case strip_fence response of
        Inl e \<Rightarrow> Inl e
      | Inr response_text \<Rightarrow> loads response_text)"

text \<open>\<^verbatim>\<open>d.setdefault(key, value)\<close>: a key that is present keeps its value.\<close>

definition setdefault :: "('k \<times> 'v) list \<Rightarrow> 'k \<Rightarrow> 'v \<Rightarrow> ('k \<times> 'v) list" where
  "setdefault d k v = (case map_of d k of None \<Rightarrow> d @ [(k, v)] | Some _ \<Rightarrow> d)"

text \<open>\<^verbatim>\<open>deal.get(key)\<close> as it is interpolated: \<^verbatim>\<open>None\<close> when the key is missing.\<close>

definition deal_get :: "deal \<Rightarrow> pystr \<Rightarrow> pyval" where
  "deal_get deal k = (case map_of deal k of None \<Rightarrow> PNone | Some v \<Rightarrow> pyval_of v)"

text \<open>One line of the listing; the bullet is the code point U+2022.\<close>

definition deal_line :: "deal \<Rightarrow> fstring" where
  "deal_line deal =
     [Lit ([32, 32, 0x2022, 32]), Val (deal_get deal (pstr ''company_name'')),
      Lit (pstr '': ''), Val (deal_get deal (pstr ''stage''))]
     @ (if truthy (deal_get deal (pstr ''next_action''))
        then [Lit (pstr '' (Next: ''), Val (deal_get deal (pstr ''next_action'')), Lit (pstr '')'')]
        else [])
     @ [Lit (pstr ''\<newline>'')]"

text \<open>
  \<^verbatim>\<open>execute_action\<close>. \<open>today\<close> is \<^verbatim>\<open>date.today().isoformat()\<close> and \<open>values\<close> the grid
  the sheet returns. \<^verbatim>\<open>action_data.get\<close> raises when the parsed reply is not a
  dictionary, and \<^verbatim>\<open>deal_data.setdefault\<close> when the deal is not one.
\<close>

definition execute_action ::
  "(pystr \<Rightarrow> pystr) \<Rightarrow> pystr \<Rightarrow> pystr list list \<Rightarrow> pyval \<Rightarrow> (error + fstring) \<times> api_call list" where
  "execute_action lower today values action_data =
     (case action_data of
        PDict kvs \<Rightarrow>
          (let action = dict_get kvs (pstr ''action'') PNone in
           if action = PStr (pstr ''update'') then
             (let company = dict_get kvs (pstr ''company'') PNone;
                  updates = dict_get kvs (pstr ''updates'') (PDict [])
              in update_deal lower values company updates)
           else if action = PStr (pstr ''add'') then
             (case dict_get kvs (pstr ''deal'') (PDict []) of
                PDict deal_data0 \<Rightarrow>
                  (let deal_data1 = setdefault deal_data0 (pstr ''date_entered'') (PStr today);
                       deal_data2 = setdefault deal_data1 (pstr ''stage_date'') (PStr today);
                       deal_data3 = setdefault deal_data2 (pstr ''stage'') (PStr (pstr ''Lead''))
                   in (case add_deal deal_data3 of (result, calls) \<Rightarrow> (Inr result, calls)))
              | _ \<Rightarrow> (Inl AttributeError, []))
           else if action = PStr (pstr ''list'') then
             (let filter_stage = dict_get kvs (pstr ''filter_stage'') PNone in
              case list_deals lower values filter_stage of
                Inl e \<Rightarrow> (Inl e, [])
              | Inr deals \<Rightarrow>
                  if deals = [] then (Inr [Lit (pstr ''No deals found.'')], [])
                  else
                    (Inr ([Lit (pstr ''Found ''), Val (PInt (int (length deals))),
                           Lit (pstr '' deal(s):\<newline>'')]
                          @ concat (map deal_line deals)), []))
           else if action = PStr (pstr ''clarify'') then
             (Inr [Lit (pstr ''Question: ''), Val (dict_get kvs (pstr ''message'') PNone)], [])
           else (Inr [Lit (pstr ''Unknown action: ''), Val action], []))
      | _ \<Rightarrow> (Inl AttributeError, []))"

text \<open>
  \<^verbatim>\<open>chat\<close>: both handlers turn the exception into a reply, the first for
  \<^verbatim>\<open>JSONDecodeError\<close>, the second for any other.
\<close>

definition chat ::
  "(fstring \<Rightarrow> pystr) \<Rightarrow> (pystr \<Rightarrow> error + pyval) \<Rightarrow> (pystr \<Rightarrow> pystr) \<Rightarrow> pystr \<Rightarrow> pystr list list
     \<Rightarrow> pystr \<Rightarrow> fstring \<times> api_call list" where
  "chat complete loads lower today values user_message =
     (let current_deals = get_all_deals lower values in
      case process_command complete loads user_message current_deals of
        Inl e \<Rightarrow>
          (if e = JSONDecodeError then ([Lit (pstr ''Error parsing response: ''), Exc e], [])
           else ([Lit (pstr ''Error: ''), Exc e], []))
      | Inr action_data \<Rightarrow>
          (case execute_action lower today values action_data of
             (Inl e, calls) \<Rightarrow>
               (if e = JSONDecodeError
                then ([Lit (pstr ''Error parsing response: ''), Exc e], calls)
                else ([Lit (pstr ''Error: ''), Exc e], calls))
           | (Inr result, calls) \<Rightarrow> (result, calls)))"

section \<open>Notions used to state the properties\<close>

text \<open>The text a deal stores under a key: empty when the key is missing.\<close>

definition text_of :: "deal \<Rightarrow> pystr \<Rightarrow> pystr" where
  "text_of d k = (case map_of d k of Some (DStr s) \<Rightarrow> s | _ \<Rightarrow> [])"

text \<open>
  The lowered company name of a deal contains the lowered query as a substring, and the
  lowered stage of a deal equals the lowered stage name.
\<close>

definition name_contains :: "(pystr \<Rightarrow> pystr) \<Rightarrow> pystr \<Rightarrow> deal \<Rightarrow> bool" where
  "name_contains lower q d = sublist (lower q) (lower (text_of d (pstr ''company_name'')))"

definition stage_is :: "(pystr \<Rightarrow> pystr) \<Rightarrow> pystr \<Rightarrow> deal \<Rightarrow> bool" where
  "stage_is lower s d = (lower (text_of d (pstr ''stage'')) = lower s)"

text \<open>
  What every deal built by \<open>get_all_deals\<close> satisfies: it is not empty, it has a
  \<^verbatim>\<open>row_number\<close>, and every other key holds text.
\<close>

definition deal_ok :: "deal \<Rightarrow> bool" where
  "deal_ok d = (d \<noteq> [] \<and> map_of d (pstr ''row_number'') \<noteq> None \<and>
     (\<forall>k v. k \<noteq> pstr ''row_number'' \<longrightarrow> map_of d k = Some v \<longrightarrow> (\<exists>s. v = DStr s)))"

text \<open>
  The zip of a row against the headers, the row cut or filled up with empty text to the
  number of headers.
\<close>

definition pad_row :: "nat \<Rightarrow> pystr list \<Rightarrow> pystr list" where
  "pad_row n row = take n row @ replicate (n - length row) []"

definition zip_row :: "pystr list \<Rightarrow> pystr list \<Rightarrow> deal" where
  "zip_row headers row = zip headers (map DStr (pad_row (length headers) row))"

section \<open>Example inputs\<close>

text \<open>
  A sheet with three deals, two of them of a company whose name contains \<^verbatim>\<open>acme\<close>; the
  last row is short.
\<close>

definition example_grid :: "pystr list list" where
  "example_grid =
     map (map pstr)
       [[''Company Name'', ''Contact Name'', ''Stage''],
        [''Globex'', ''Hank'', ''Lead''],
        [''Acme Corp'', ''Wile'', ''Discovery''],
        [''Acme Inc'', ''Road'']]"

definition example_sheet :: sheet where
  "example_sheet =
     \<lparr>cells = [pstr ''A2'' \<mapsto> PStr (pstr ''Globex''), pstr ''C2'' \<mapsto> PStr (pstr ''Lead''),
               pstr ''G3'' \<mapsto> PStr (pstr ''x'')],
      appended = []\<rparr>"

text \<open>
  A reply whose JSON text holds a fence inside a string:
  \<^verbatim>\<open>{"action": "clarify", "message": "wrap it in ``` fences"}\<close>; the same reply wrapped in
  a fence tagged \<^verbatim>\<open>json\<close>; and the wrapped reply up to the inner fence, without the tag.
\<close>

definition quoted :: "string \<Rightarrow> string" where
  "quoted s = CHR 0x22 # s @ [CHR 0x22]"

definition clarify_text :: pystr where
  "clarify_text =
     pstr (''{'' @ quoted ''action'' @ '': '' @ quoted ''clarify'' @ '', '' @ quoted ''message''
           @ '': '' @ quoted ''wrap it in ``` fences'' @ ''}'')"

definition clarify_fenced :: pystr where
  "clarify_fenced = pstr ''```json\<newline>'' @ clarify_text @ pstr ''\<newline>```''"

definition clarify_cut :: pystr where
  "clarify_cut =
     pstr (''\<newline>{'' @ quoted ''action'' @ '': '' @ quoted ''clarify'' @ '', '' @ quoted ''message''
           @ '': '' @ [CHR 0x22] @ ''wrap it in '')"

text \<open>
  Sheets with a header that normalizes to \<^verbatim>\<open>row_number\<close>; in the second the cell under
  it names the row of another deal. A sheet state for the second: the stages of both
  deals in column G.
\<close>

definition collision_grid :: "pystr list list" where
  "collision_grid = map (map pstr) [[''Company Name'', ''Row Number''], [''Acme'', ''7'']]"

definition crossed_grid :: "pystr list list" where
  "crossed_grid =
     map (map pstr) [[''Company Name'', ''Row Number''], [''Acme'', ''3''], [''Globex'', ''2'']]"

definition crossed_sheet :: sheet where
  "crossed_sheet =
     \<lparr>cells = [pstr ''G2'' \<mapsto> PStr (pstr ''Lead''), pstr ''G3'' \<mapsto> PStr (pstr ''Discovery'')],
      appended = []\<rparr>"

text \<open>
  Greek words, as code points: the capital letters kappa omega sigma, the capital letters
  kappa omega sigma tau alpha sigma, capital alpha sigma and small alpha sigma.
  \<open>lower_sigma\<close> is \<^verbatim>\<open>str.lower\<close> on ASCII text and on these words: a capital sigma at the
  end of a word becomes the final small sigma U+03C2, elsewhere the small sigma U+03C3.
\<close>

definition kos :: pystr where
  "kos = [0x39A, 0x3A9, 0x3A3]"

definition kostas :: pystr where
  "kostas = [0x39A, 0x3A9, 0x3A3, 0x3A4, 0x391, 0x3A3]"

definition capital_as :: pystr where
  "capital_as = [0x391, 0x3A3]"

definition small_as :: pystr where
  "small_as = [0x3B1, 0x3C3]"

definition lower_sigma :: "pystr \<Rightarrow> pystr" where
  "lower_sigma s =
     (if s = kos then [0x3BA, 0x3C9, 0x3C2]
      else if s = kostas then [0x3BA, 0x3C9, 0x3C3, 0x3C4, 0x3B1, 0x3C2]
      else if s = capital_as then [0x3B1, 0x3C2]
      else ascii_lower s)"

text \<open>
  A parser for the examples. It returns the empty dictionary on the text \<^verbatim>\<open>{}\<close> with
  JSON white space (space, tab, line feed, carriage return) before, between or after the
  braces, and raises \<^verbatim>\<open>JSONDecodeError\<close> on every other text. \<^verbatim>\<open>json.loads\<close> does the
  same on the former texts and on every text that is not JSON.
\<close>

definition json_space :: "nat \<Rightarrow> bool" where
  "json_space c = (c = 32 \<or> c = 9 \<or> c = 10 \<or> c = 13)"

definition loads_braces :: "pystr \<Rightarrow> error + pyval" where
  "loads_braces s =
     (if filter (\<lambda>c. \<not> json_space c) s = pstr ''{}'' then Inr (PDict [])
      else Inl JSONDecodeError)"

section \<open>Text\<close>

lemma pstr_eq [simp]: "pstr a = pstr b \<longleftrightarrow> a = b"
  by (simp add: pstr_def inj_map_eq_map inj_on_def)

lemma py_in_sublist: "py_in n h = sublist n h"
  by (induction h) (simp_all add: sublist_Cons_right)

lemma show_nat_nonempty: "show_nat n \<noteq> []"
  by (subst show_nat.simps) simp

lemma show_nat_inj: "show_nat m = show_nat n \<Longrightarrow> m = n"
proof (induction m arbitrary: n rule: show_nat.induct)
  case (1 m)
  show ?case
  proof (cases "m < 10")
    case True
    show ?thesis
    proof (cases "n < 10")
      case n: True
      from "1.prems" True n show ?thesis
        by (subst (asm) (1 2) show_nat.simps) simp
    next
      case n: False
      from "1.prems" True n have "[48 + m] = show_nat (n div 10) @ [48 + n mod 10]"
        by (subst (asm) (1 2) show_nat.simps) simp
      then have "show_nat (n div 10) = []" by simp
      then show ?thesis by (simp add: show_nat_nonempty)
    qed
  next
    case False
    show ?thesis
    proof (cases "n < 10")
      case n: True
      from "1.prems" False n have "show_nat (m div 10) @ [48 + m mod 10] = [48 + n]"
        by (subst (asm) (1 2) show_nat.simps) simp
      then have "show_nat (m div 10) = []" by simp
      then show ?thesis by (simp add: show_nat_nonempty)
    next
      case n: False
      from "1.prems" False n
      have "show_nat (m div 10) @ [48 + m mod 10] = show_nat (n div 10) @ [48 + n mod 10]"
        by (subst (asm) (1 2) show_nat.simps) simp
      then have a: "show_nat (m div 10) = show_nat (n div 10)"
        and b: "m mod 10 = n mod 10" by simp_all
      from "1.IH" [OF False a] have "m div 10 = n div 10" .
      with b show ?thesis by (metis div_mult_mod_eq)
    qed
  qed
qed

section \<open>The deals built from the grid\<close>

lemma fill_deal_other: "k \<notin> set hs \<Longrightarrow> map_of (fill_deal j hs row d) k = map_of d k"
  by (induction hs arbitrary: j d) (simp_all add: update_conv')

lemma fill_deal_nonempty: "d \<noteq> [] \<Longrightarrow> fill_deal j hs row d \<noteq> []"
  by (induction hs arbitrary: j d) simp_all

lemma fill_deal_vals:
  "map_of (fill_deal j hs row d) k = Some v \<Longrightarrow> map_of d k = Some v \<or> (\<exists>s. v = DStr s)"
proof (induction hs arbitrary: j d)
  case Nil
  then show ?case by simp
next
  case (Cons h hs)
  from Cons.prems have
    "map_of (fill_deal (Suc j) hs row
       (AList.update h (DStr (if j < length row then row ! j else [])) d)) k = Some v"
    by simp
  from Cons.IH [OF this] show ?case
    by (auto simp: update_conv' split: if_splits)
qed

lemma fill_deal_dom: "map_of d k \<noteq> None \<Longrightarrow> map_of (fill_deal j hs row d) k \<noteq> None"
  by (induction hs arbitrary: j d) (simp_all add: update_conv')

lemma fill_deal_ok: "deal_ok (fill_deal 0 hs row [(pstr ''row_number'', DInt i)])"
proof -
  let ?d = "fill_deal 0 hs row [(pstr ''row_number'', DInt i)]"
  have a: "?d \<noteq> []" by (rule fill_deal_nonempty) simp
  have b: "map_of ?d (pstr ''row_number'') \<noteq> None" by (rule fill_deal_dom) simp
  have c: "\<exists>s. v = DStr s" if "k \<noteq> pstr ''row_number''" "map_of ?d k = Some v" for k v
    using fill_deal_vals [OF that(2)] that(1) by auto
  from a b c show ?thesis unfolding deal_ok_def by blast
qed

lemma deals_from_ok: "d \<in> set (deals_from i hs rows) \<Longrightarrow> deal_ok d"
  by (induction rows arbitrary: i) (auto simp: fill_deal_ok)

lemma get_all_deals_ok: "d \<in> set (get_all_deals lower values) \<Longrightarrow> deal_ok d"
  by (auto simp: get_all_deals_def deals_from_ok split: list.splits)

lemma lower_dval_text:
  "deal_ok d \<Longrightarrow> k \<noteq> pstr ''row_number'' \<Longrightarrow>
     lower_dval lower (dict_get d k (DStr [])) = Inr (lower (text_of d k))"
  by (auto simp: deal_ok_def dict_get_def text_of_def split: option.splits dval.splits)

text \<open>
  The inner loop computes the dictionary of the zip, laid over the \<^verbatim>\<open>row_number\<close> entry:
  a later header of the same name wins over an earlier one, and a header named
  \<^verbatim>\<open>row_number\<close> over the row number.
\<close>

lemma zip_row_Nil: "zip_row [] row = []"
  by (simp add: zip_row_def)

lemma zip_row_Cons:
  "zip_row (h # hs) row =
     (h, DStr (case row of [] \<Rightarrow> [] | c # _ \<Rightarrow> c)) # zip_row hs (tl row)"
  by (cases row) (simp_all add: zip_row_def pad_row_def)

lemma drop_head:
  "(case drop j row of [] \<Rightarrow> [] | c # _ \<Rightarrow> c) = (if j < length row then row ! j else [])"
  by (simp add: Cons_nth_drop_Suc [symmetric] split: list.splits)

lemma fill_deal_zip:
  "map_of (fill_deal j hs row d) = map_of d ++ map_of (rev (zip_row hs (drop j row)))"
proof (induction hs arbitrary: j d)
  case Nil
  then show ?case by (simp add: zip_row_Nil)
next
  case (Cons h hs)
  show ?case
    by (rule ext)
      (simp add: Cons.IH zip_row_Cons drop_head update_conv' drop_Suc tl_drop map_add_def
        split: option.splits)
qed

lemma deals_from_nth:
  "k < length rows \<Longrightarrow>
     deals_from i hs rows ! k = fill_deal 0 hs (rows ! k) [(pstr ''row_number'', DInt (i + k))]"
proof (induction rows arbitrary: i k)
  case Nil
  then show ?case by simp
next
  case (Cons row rows)
  then show ?case by (cases k) simp_all
qed

lemma deals_from_length: "length (deals_from i hs rows) = length rows"
  by (induction rows arbitrary: i) simp_all

lemma get_all_deals_rows:
  "get_all_deals lower [] = []"
  "length (get_all_deals lower (first # rest)) = length rest"
  "k < length rest \<Longrightarrow>
     map_of (get_all_deals lower (first # rest) ! k) =
       [pstr ''row_number'' \<mapsto> DInt (k + 2)]
       ++ map_of (rev (zip_row (map (normalize_header lower) first) (rest ! k)))"
  by (simp_all add: get_all_deals_def deals_from_length deals_from_nth fill_deal_zip)

lemma get_all_deals_row_number:
  assumes "k < length rest" and "pstr ''row_number'' \<notin> set (map (normalize_header lower) first)"
  shows "map_of (get_all_deals lower (first # rest) ! k) (pstr ''row_number'') = Some (DInt (k + 2))"
proof -
  have "pstr ''row_number''
          \<notin> fst ` set (rev (zip_row (map (normalize_header lower) first) (rest ! k)))"
    using assms(2) by (auto simp: zip_row_def dest: set_zip_leftD)
  then have "map_of (rev (zip_row (map (normalize_header lower) first) (rest ! k)))
               (pstr ''row_number'') = None"
    by (simp add: map_of_eq_None_iff)
  with assms(1) show ?thesis
    by (simp add: get_all_deals_rows(3) map_add_def)
qed

section \<open>Evaluation of the examples\<close>

lemmas eval_text = pstr_def ascii_lower_def replace_space_def normalize_header_def
lemmas eval_deals = get_all_deals_def eval_text dict_get_def find_deal_def

lemma example_deals:
  "get_all_deals ascii_lower example_grid =
     [[(pstr ''row_number'', DInt 2), (pstr ''company_name'', DStr (pstr ''Globex'')),
       (pstr ''contact_name'', DStr (pstr ''Hank'')), (pstr ''stage'', DStr (pstr ''Lead''))],
      [(pstr ''row_number'', DInt 3), (pstr ''company_name'', DStr (pstr ''Acme Corp'')),
       (pstr ''contact_name'', DStr (pstr ''Wile'')), (pstr ''stage'', DStr (pstr ''Discovery''))],
      [(pstr ''row_number'', DInt 4), (pstr ''company_name'', DStr (pstr ''Acme Inc'')),
       (pstr ''contact_name'', DStr (pstr ''Road'')), (pstr ''stage'', DStr [])]]"
  by (simp add: example_grid_def eval_deals)

lemma example_find:
  "find_deal ascii_lower example_grid (PStr (pstr ''acme'')) =
     Inr (Some [(pstr ''row_number'', DInt 3), (pstr ''company_name'', DStr (pstr ''Acme Corp'')),
       (pstr ''contact_name'', DStr (pstr ''Wile'')), (pstr ''stage'', DStr (pstr ''Discovery''))])"
  by (simp add: find_deal_def example_deals dict_get_def) (simp add: eval_text)

lemma example_find_globex:
  "find_deal ascii_lower example_grid (PStr (pstr ''globex'')) =
     Inr (Some [(pstr ''row_number'', DInt 2), (pstr ''company_name'', DStr (pstr ''Globex'')),
       (pstr ''contact_name'', DStr (pstr ''Hank'')), (pstr ''stage'', DStr (pstr ''Lead''))])"
  by (simp add: find_deal_def example_deals dict_get_def) (simp add: eval_text)

section \<open>Company lookup\<close>

lemma find_loop_find:
  "\<forall>d \<in> set ds. deal_ok d \<Longrightarrow>
     find_loop lower (lower q) ds = Inr (List.find (name_contains lower q) ds)"
  by (induction ds) (simp_all add: lower_dval_text py_in_sublist name_contains_def)

lemma find_deal_find:
  "find_deal lower values (PStr q) =
     Inr (List.find (name_contains lower q) (get_all_deals lower values))"
  by (simp add: find_deal_def find_loop_find get_all_deals_ok)

lemma find_loop_mem: "find_loop lower q ds = Inr (Some d) \<Longrightarrow> d \<in> set ds"
  by (induction ds) (auto split: sum.splits if_splits)

lemma find_deal_mem:
  "find_deal lower values company = Inr (Some d) \<Longrightarrow> d \<in> set (get_all_deals lower values)"
  by (auto simp: find_deal_def dest: find_loop_mem split: sum.splits)

lemma find_deal_ok: "find_deal lower values company = Inr (Some d) \<Longrightarrow> deal_ok d"
  by (blast intro: get_all_deals_ok dest: find_deal_mem)

text \<open>
  What the lookup computes. For every grid and every query string, \<open>find_deal\<close> raises
  nothing and returns the first deal, in row order, whose company name lowered by
  \<^verbatim>\<open>str.lower\<close> contains the query lowered by \<^verbatim>\<open>str.lower\<close> as a substring; it
  returns \<^verbatim>\<open>None\<close> only when no deal's lowered company name contains the lowered query.
  This holds whatever \<^verbatim>\<open>str.lower\<close> computes.
\<close>

lemma find_deal_first_match:
  "\<exists>r. find_deal lower values (PStr q) = Inr r \<and>
     (case r of
        None \<Rightarrow> \<forall>d \<in> set (get_all_deals lower values). \<not> name_contains lower q d
      | Some d \<Rightarrow>
          \<exists>k < length (get_all_deals lower values).
            get_all_deals lower values ! k = d \<and> name_contains lower q d \<and>
            (\<forall>j < k. \<not> name_contains lower q (get_all_deals lower values ! j)))"
proof (cases "List.find (name_contains lower q) (get_all_deals lower values)")
  case None
  then have "\<forall>d \<in> set (get_all_deals lower values). \<not> name_contains lower q d"
    by (simp add: find_None_iff)
  with None show ?thesis by (simp add: find_deal_find)
next
  case (Some d)
  then have "\<exists>k < length (get_all_deals lower values).
      get_all_deals lower values ! k = d \<and> name_contains lower q d \<and>
      (\<forall>j < k. \<not> name_contains lower q (get_all_deals lower values ! j))"
    by (auto simp: find_Some_iff)
  with Some show ?thesis by (simp add: find_deal_find)
qed

text \<open>The query \<^verbatim>\<open>acme\<close> skips the first deal and finds \<^verbatim>\<open>Acme Corp\<close> before \<^verbatim>\<open>Acme Inc\<close>.\<close>

lemma find_deal_first_match_example:
  "find_deal ascii_lower example_grid (PStr (pstr ''acme''))
     = Inr (Some (get_all_deals ascii_lower example_grid ! 1)) \<and>
   \<not> name_contains ascii_lower (pstr ''acme'') (get_all_deals ascii_lower example_grid ! 0) \<and>
   name_contains ascii_lower (pstr ''acme'') (get_all_deals ascii_lower example_grid ! 1) \<and>
   name_contains ascii_lower (pstr ''acme'') (get_all_deals ascii_lower example_grid ! 2)"
proof -
  have a: "find_deal ascii_lower example_grid (PStr (pstr ''acme''))
     = Inr (Some (get_all_deals ascii_lower example_grid ! 1))"
    by (simp add: example_find example_deals)
  have b: "\<not> name_contains ascii_lower (pstr ''acme'') (get_all_deals ascii_lower example_grid ! 0)"
    "name_contains ascii_lower (pstr ''acme'') (get_all_deals ascii_lower example_grid ! 1)"
    "name_contains ascii_lower (pstr ''acme'') (get_all_deals ascii_lower example_grid ! 2)"
    by (simp_all add: example_deals name_contains_def text_of_def eval_text sublist_code)
  from find_deal_first_match [of ascii_lower example_grid "pstr ''acme''"] a b
  show ?thesis by simp
qed

text \<open>
  C3 fails on a Greek name. The stored name, the capital letters kappa omega sigma tau
  alpha sigma, contains the query kappa omega sigma letter for letter, so also when case
  is ignored, and no deal is found: \<^verbatim>\<open>str.lower\<close> turns the sigma at the end of the query
  into the final sigma and the same sigma inside the name into the other one, and the
  lookup compares the lowered texts.
\<close>

theorem final_sigma_not_found:
  "sublist kos kostas \<and>
   find_deal lower_sigma [[pstr ''Company Name''], [kostas]] (PStr kos) = Inr None"
  by (simp add: find_deal_def get_all_deals_def normalize_header_def replace_space_def
      dict_get_def lower_sigma_def kos_def kostas_def capital_as_def ascii_lower_def
      pstr_def sublist_code)

section \<open>Listing\<close>

lemma stage_filter_filter:
  "\<forall>d \<in> set ds. deal_ok d \<Longrightarrow>
     stage_filter lower (PStr s) ds = Inr (filter (stage_is lower s) ds)"
  by (induction ds) (simp_all add: lower_dval_text stage_is_def)

text \<open>
  What the listing computes. Without a stage filter (\<^verbatim>\<open>None\<close>, or any other value that
  counts as false, such as the empty string) \<open>list_deals\<close> returns all deals; with a stage
  name it returns exactly the deals whose stage lowered by \<^verbatim>\<open>str.lower\<close> equals the name
  lowered by \<^verbatim>\<open>str.lower\<close>, in row order. This holds whatever \<^verbatim>\<open>str.lower\<close> computes.
\<close>

lemma list_deals_filter:
  "(\<not> truthy stage \<longrightarrow> list_deals lower values stage = Inr (get_all_deals lower values)) \<and>
   (s \<noteq> [] \<longrightarrow>
      list_deals lower values (PStr s)
        = Inr (filter (stage_is lower s) (get_all_deals lower values)))"
  by (simp add: list_deals_def stage_filter_filter get_all_deals_ok)

lemma list_deals_filter_example:
  "list_deals ascii_lower example_grid PNone = Inr (get_all_deals ascii_lower example_grid) \<and>
   list_deals ascii_lower example_grid (PStr (pstr ''discovery''))
     = Inr [get_all_deals ascii_lower example_grid ! 1]"
proof -
  have a: "\<not> truthy PNone" "pstr ''discovery'' \<noteq> []"
    by (simp_all add: pstr_def)
  have b: "filter (stage_is ascii_lower (pstr ''discovery'')) (get_all_deals ascii_lower example_grid)
             = [get_all_deals ascii_lower example_grid ! 1]"
    by (simp add: example_deals stage_is_def text_of_def eval_text)
  from list_deals_filter [of PNone ascii_lower example_grid "pstr ''discovery''"] a b
  show ?thesis by simp
qed

text \<open>
  C9 fails on a Greek stage. The stored stage, capital alpha sigma, and the filter, small
  alpha sigma, differ in case only, and the deal is not listed: \<^verbatim>\<open>str.lower\<close> turns the
  capital sigma at the end of the stage into the final sigma, which the filter does not
  have, and the listing compares the lowered texts.
\<close>

theorem stage_sigma_not_listed:
  "lower_sigma capital_as = [0x3B1, 0x3C2] \<and> lower_sigma small_as = [0x3B1, 0x3C3] \<and>
   list_deals lower_sigma [[pstr ''Company Name'', pstr ''Stage''], [pstr ''Acme'', capital_as]]
     (PStr small_as) = Inr []"
  by (simp add: list_deals_def get_all_deals_def normalize_header_def replace_space_def
      dict_get_def lower_sigma_def kos_def kostas_def capital_as_def small_as_def
      ascii_lower_def pstr_def)

section \<open>Updating a deal\<close>

lemma exec_calls_Nil: "exec_calls [] s = s"
  by (simp add: exec_calls_def)

lemma exec_calls_Cons: "exec_calls (c # cs) s = exec_calls cs (exec_call c s)"
  by (simp add: exec_calls_def)

lemma update_deal_found:
  assumes "find_deal lower values company = Inr (Some deal)"
  shows "\<exists>row. map_of deal (pstr ''row_number'') = Some row \<and>
           update_deal lower values company (PDict items) =
             (Inr [Lit (pstr ''Updated ''), Val company, Lit (pstr '': ''), Val (PDict items)],
              update_loop row items)"
proof -
  from find_deal_ok [OF assms] obtain row
    where "deal \<noteq> []" and "map_of deal (pstr ''row_number'') = Some row"
    by (auto simp: deal_ok_def)
  with assms show ?thesis by (simp add: update_deal_def)
qed

lemma update_loop_unknown:
  "\<forall>f \<in> fst ` set items. map_of COLUMNS f = None \<Longrightarrow> update_loop row items = []"
  by (induction items) auto

lemma update_loop_map:
  "update_loop row items =
     map (\<lambda>(f, v). Update (the (map_of COLUMNS f) @ show_dval row) v)
       (filter (\<lambda>(f, v). map_of COLUMNS f \<noteq> None) items)"
  by (induction items) (auto split: option.splits)

lemma update_loop_set:
  "c \<in> set (update_loop row items) \<longleftrightarrow>
     (\<exists>f v col. (f, v) \<in> set items \<and> map_of COLUMNS f = Some col \<and>
        c = Update (col @ show_dval row) v)"
  by (induction items) (auto split: option.splits)

lemma update_loop_no_append: "Append r \<notin> set (update_loop row items)"
  by (auto simp: update_loop_set)

text \<open>
  C5. When no deal's lowered company name contains the lowered query, that is, when the
  lookup finds no deal, \<open>update_deal\<close> returns the not-found message, issues no request
  and so leaves the sheet as it was. This holds whatever \<^verbatim>\<open>str.lower\<close> computes.
\<close>

theorem update_deal_not_found:
  assumes "\<forall>d \<in> set (get_all_deals lower values). \<not> name_contains lower q d"
  shows "find_deal lower values (PStr q) = Inr None \<and>
         update_deal lower values (PStr q) updates =
           (Inr [Lit (pstr (''Could not find a deal for '' @ [CHR 0x27])), Val (PStr q),
                 Lit (pstr [CHR 0x27])], [])
         \<and> exec_calls (snd (update_deal lower values (PStr q) updates)) s = s"
proof -
  from assms have "List.find (name_contains lower q) (get_all_deals lower values) = None"
    by (simp add: find_None_iff)
  then have "find_deal lower values (PStr q) = Inr None"
    by (simp add: find_deal_find)
  then show ?thesis by (simp add: update_deal_def exec_calls_Nil)
qed

theorem update_deal_not_found_witness:
  "update_deal ascii_lower example_grid (PStr (pstr ''Nonexistent''))
     (PDict [(pstr ''stage'', PStr (pstr ''Won''))]) =
     (Inr [Lit (pstr (''Could not find a deal for '' @ [CHR 0x27])),
           Val (PStr (pstr ''Nonexistent'')), Lit (pstr [CHR 0x27])], []) \<and>
   exec_calls (snd (update_deal ascii_lower example_grid (PStr (pstr ''Nonexistent''))
     (PDict [(pstr ''stage'', PStr (pstr ''Won''))]))) example_sheet = example_sheet"
proof -
  have h: "\<forall>d \<in> set (get_all_deals ascii_lower example_grid).
             \<not> name_contains ascii_lower (pstr ''Nonexistent'') d"
    by (simp add: example_deals name_contains_def text_of_def eval_text sublist_code)
  from update_deal_not_found [OF h] show ?thesis by blast
qed

text \<open>
  C10. An update of an existing deal whose mapping is not empty and names only fields
  outside \<^verbatim>\<open>COLUMNS\<close> issues no request and still returns the summary
  \<^verbatim>\<open>Updated {company_name}: {updates}\<close>, the same text a fully applied update returns.
\<close>

theorem update_all_unknown:
  assumes "find_deal lower values company = Inr (Some deal)"
    and "items \<noteq> []"
    and "\<forall>f \<in> fst ` set items. map_of COLUMNS f = None"
  shows "update_deal lower values company (PDict items) =
           (Inr [Lit (pstr ''Updated ''), Val company, Lit (pstr '': ''), Val (PDict items)], [])"
  using update_deal_found [OF assms(1), of items] update_loop_unknown [OF assms(3)]
  by auto

theorem update_all_unknown_witness:
  "update_deal ascii_lower example_grid (PStr (pstr ''globex''))
     (PDict [(pstr ''owner'', PStr (pstr ''Sam''))]) =
     (Inr [Lit (pstr ''Updated ''), Val (PStr (pstr ''globex'')), Lit (pstr '': ''),
           Val (PDict [(pstr ''owner'', PStr (pstr ''Sam''))])], [])"
proof -
  have a: "[(pstr ''owner'', PStr (pstr ''Sam''))] \<noteq> []" by simp
  have b: "\<forall>f \<in> fst ` set [(pstr ''owner'', PStr (pstr ''Sam''))]. map_of COLUMNS f = None"
    by (simp add: COLUMNS_def)
  show ?thesis by (rule update_all_unknown [OF example_find_globex a b])
qed

text \<open>
  C1, as the code has it. An update of an existing deal does not fail on a field outside
  the fixed set: the field is skipped, no cell is written for it, the cells of the known
  fields of the mapping are written in the mapping's order, and the summary is returned.
\<close>

theorem update_deal_skips_unknown:
  assumes "find_deal lower values company = Inr (Some deal)"
  shows "\<exists>row. map_of deal (pstr ''row_number'') = Some row \<and>
           update_deal lower values company (PDict items) =
             (Inr [Lit (pstr ''Updated ''), Val company, Lit (pstr '': ''), Val (PDict items)],
              map (\<lambda>(f, v). Update (the (map_of COLUMNS f) @ show_dval row) v)
                (filter (\<lambda>(f, v). map_of COLUMNS f \<noteq> None) items))"
  using update_deal_found [OF assms, of items] by (simp add: update_loop_map)

theorem update_deal_skips_unknown_witness:
  "update_deal ascii_lower example_grid (PStr (pstr ''globex''))
     (PDict [(pstr ''owner'', PStr (pstr ''Sam'')), (pstr ''stage'', PStr (pstr ''Won''))]) =
     (Inr [Lit (pstr ''Updated ''), Val (PStr (pstr ''globex'')), Lit (pstr '': ''),
           Val (PDict [(pstr ''owner'', PStr (pstr ''Sam'')),
                       (pstr ''stage'', PStr (pstr ''Won''))])],
      [Update (pstr ''G2'') (PStr (pstr ''Won''))])"
proof -
  have "show_nat 2 = pstr ''2''" by (simp add: show_nat.simps pstr_def)
  with update_deal_skips_unknown [OF example_find_globex,
      of "[(pstr ''owner'', PStr (pstr ''Sam'')), (pstr ''stage'', PStr (pstr ''Won''))]"]
  show ?thesis by (auto simp: COLUMNS_def) (simp add: pstr_def)
qed

text \<open>
  C1 as stated fails: with the unknown field \<^verbatim>\<open>bogus\<close> in the mapping the update
  returns the summary, not a failure, and the cell \<^verbatim>\<open>G3\<close> of the sheet is changed.
\<close>

theorem unknown_field_counterexample:
  "update_deal ascii_lower example_grid (PStr (pstr ''acme''))
     (PDict [(pstr ''bogus'', PStr (pstr ''x'')), (pstr ''stage'', PStr (pstr ''Won''))]) =
     (Inr [Lit (pstr ''Updated ''), Val (PStr (pstr ''acme'')), Lit (pstr '': ''),
           Val (PDict [(pstr ''bogus'', PStr (pstr ''x'')),
                       (pstr ''stage'', PStr (pstr ''Won''))])],
      [Update (pstr ''G3'') (PStr (pstr ''Won''))]) \<and>
   cells (exec_calls [Update (pstr ''G3'') (PStr (pstr ''Won''))] example_sheet) (pstr ''G3'') \<noteq>
     cells example_sheet (pstr ''G3'')"
proof -
  have a: "show_nat 3 = pstr ''3''" by (simp add: show_nat.simps pstr_def)
  have b: "pstr ''G'' @ pstr ''3'' = pstr ''G3''" by (simp add: pstr_def)
  show ?thesis
    by (simp add: update_deal_def example_find COLUMNS_def a b exec_calls_def example_sheet_def)
qed

section \<open>What an update leaves alone\<close>

lemma columns_single: "map_of COLUMNS f = Some col \<Longrightarrow> \<exists>x. col = [x]"
proof -
  assume "map_of COLUMNS f = Some col"
  then have "(f, col) \<in> set COLUMNS" by (rule map_of_SomeD)
  moreover have "\<forall>p \<in> set COLUMNS. length (snd p) = 1" by (simp add: COLUMNS_def pstr_def)
  ultimately have "length col = 1" by fastforce
  then show ?thesis by (cases col) auto
qed

lemma columns_inj:
  assumes "map_of COLUMNS f = Some col" and "map_of COLUMNS g = Some col"
  shows "f = g"
proof -
  have "distinct (map snd COLUMNS)" by (simp add: COLUMNS_def)
  then have "inj_on snd (set COLUMNS)" by (simp add: distinct_map)
  moreover from assms have "(f, col) \<in> set COLUMNS" "(g, col) \<in> set COLUMNS"
    by (auto dest: map_of_SomeD)
  ultimately have "(f, col) = (g, col)" by (intro inj_onD [of snd "set COLUMNS"]) simp_all
  then show ?thesis by simp
qed

lemma cell_ref_eq:
  assumes "map_of COLUMNS f = Some col" and "map_of COLUMNS g = Some col'"
  shows "col @ r = col' @ r' \<longleftrightarrow> f = g \<and> r = r'"
proof -
  from assms obtain x y where xy: "col = [x]" "col' = [y]"
    by (blast dest: columns_single)
  show ?thesis
  proof
    assume "col @ r = col' @ r'"
    with xy have "col = col'" "r = r'" by simp_all
    with assms show "f = g \<and> r = r'" by (blast dest: columns_inj)
  next
    assume "f = g \<and> r = r'"
    with assms show "col @ r = col' @ r'" by simp
  qed
qed

lemma exec_calls_cells_frame:
  "\<forall>v. Update a v \<notin> set calls \<Longrightarrow> cells (exec_calls calls s) a = cells s a"
proof (induction calls arbitrary: s)
  case Nil
  then show ?case by (simp add: exec_calls_Nil)
next
  case (Cons c calls)
  then show ?case by (cases c) (auto simp: exec_calls_Cons)
qed

lemma exec_calls_appended_frame:
  "\<forall>row. Append row \<notin> set calls \<Longrightarrow> appended (exec_calls calls s) = appended s"
proof (induction calls arbitrary: s)
  case Nil
  then show ?case by (simp add: exec_calls_Nil)
next
  case (Cons c calls)
  then show ?case by (cases c) (auto simp: exec_calls_Cons)
qed

lemma update_loop_other_cell:
  assumes "\<And>f v col. (f, v) \<in> set items \<Longrightarrow> map_of COLUMNS f = Some col \<Longrightarrow>
             a \<noteq> col @ show_dval row"
  shows "cells (exec_calls (update_loop row items) s) a = cells s a"
proof (rule exec_calls_cells_frame, intro allI notI)
  fix v assume "Update a v \<in> set (update_loop row items)"
  then obtain f col where "(f, v) \<in> set items" "map_of COLUMNS f = Some col"
    "a = col @ show_dval row"
    by (auto simp: update_loop_set)
  with assms show False by blast
qed

lemma update_loop_written:
  "distinct (map fst items) \<Longrightarrow> (f, v) \<in> set items \<Longrightarrow> map_of COLUMNS f = Some col \<Longrightarrow>
     cells (exec_calls (update_loop row items) s) (col @ show_dval row) = Some v"
proof (induction items arbitrary: s)
  case Nil
  then show ?case by simp
next
  case (Cons p items)
  show ?case
  proof (cases "p = (f, v)")
    case True
    have "cells (exec_calls (update_loop row items) s') (col @ show_dval row)
            = cells s' (col @ show_dval row)" for s'
    proof (rule update_loop_other_cell)
      fix f' v' col'
      assume a: "(f', v') \<in> set items" and b: "map_of COLUMNS f' = Some col'"
      from a Cons.prems(1) True have "f' \<noteq> f" by force
      with b Cons.prems(3) show "col @ show_dval row \<noteq> col' @ show_dval row"
        by (auto dest: columns_inj)
    qed
    with True Cons.prems(3) show ?thesis
      by (simp add: exec_calls_Cons)
  next
    case False
    with Cons.prems have "(f, v) \<in> set items" "distinct (map fst items)" by auto
    from Cons.IH [OF this(2) this(1) Cons.prems(3)]
    show ?thesis
      by (cases p) (simp add: exec_calls_Cons split: option.splits)
  qed
qed

text \<open>
  What the write loop does with the row the deal carries. An update of an existing deal
  writes only cells of fields named in the mapping, all in the row the deal carries as its
  \<^verbatim>\<open>row_number\<close>. The cell of every field that the mapping does not name, every cell of
  every other row and the appended rows are as before; when the mapping names no field
  twice, each named known field holds its new value afterwards. The row the deal carries
  is its row in the sheet whenever no header normalizes to \<^verbatim>\<open>row_number\<close>.
\<close>

lemma update_deal_frame:
  assumes "find_deal lower values company = Inr (Some deal)"
  shows "\<exists>row calls.
     map_of deal (pstr ''row_number'') = Some row \<and>
     snd (update_deal lower values company (PDict items)) = calls \<and>
     (\<forall>c \<in> set calls. \<exists>f v col. (f, v) \<in> set items \<and> map_of COLUMNS f = Some col \<and>
        c = Update (col @ show_dval row) v) \<and>
     (\<forall>g col. map_of COLUMNS g = Some col \<longrightarrow> g \<notin> fst ` set items \<longrightarrow>
        cells (exec_calls calls s) (col @ show_dval row) = cells s (col @ show_dval row)) \<and>
     (\<forall>g col r. map_of COLUMNS g = Some col \<longrightarrow> r \<noteq> show_dval row \<longrightarrow>
        cells (exec_calls calls s) (col @ r) = cells s (col @ r)) \<and>
     (\<forall>i j g col. row = DInt i \<longrightarrow> j \<noteq> i \<longrightarrow> map_of COLUMNS g = Some col \<longrightarrow>
        cells (exec_calls calls s) (col @ show_nat j) = cells s (col @ show_nat j)) \<and>
     (distinct (map fst items) \<longrightarrow>
        (\<forall>f v col. (f, v) \<in> set items \<longrightarrow> map_of COLUMNS f = Some col \<longrightarrow>
           cells (exec_calls calls s) (col @ show_dval row) = Some v)) \<and>
     appended (exec_calls calls s) = appended s \<and>
     (\<forall>first rest k. values = first # rest \<longrightarrow> k < length rest \<longrightarrow>
        deal = get_all_deals lower values ! k \<longrightarrow>
        pstr ''row_number'' \<notin> set (map (normalize_header lower) first) \<longrightarrow> row = DInt (k + 2))"
proof -
  from update_deal_found [OF assms, of items] obtain row
    where row: "map_of deal (pstr ''row_number'') = Some row"
      and calls: "snd (update_deal lower values company (PDict items)) = update_loop row items"
    by auto
  let ?calls = "update_loop row items"
  have only: "\<forall>c \<in> set ?calls. \<exists>f v col. (f, v) \<in> set items \<and> map_of COLUMNS f = Some col \<and>
        c = Update (col @ show_dval row) v"
    by (simp add: update_loop_set)
  have other_row: "cells (exec_calls ?calls s) (col @ r) = cells s (col @ r)"
    if "map_of COLUMNS g = Some col" "r \<noteq> show_dval row" for g col r
  proof (rule update_loop_other_cell)
    fix f v col'
    assume "(f, v) \<in> set items" "map_of COLUMNS f = Some col'"
    with that show "col @ r \<noteq> col' @ show_dval row" by (simp add: cell_ref_eq)
  qed
  have other_field: "cells (exec_calls ?calls s) (col @ show_dval row) = cells s (col @ show_dval row)"
    if "map_of COLUMNS g = Some col" "g \<notin> fst ` set items" for g col
  proof (rule update_loop_other_cell)
    fix f v col'
    assume a: "(f, v) \<in> set items" and b: "map_of COLUMNS f = Some col'"
    from a that(2) have "g \<noteq> f" by force
    with that(1) b show "col @ show_dval row \<noteq> col' @ show_dval row"
      by (auto dest: columns_inj)
  qed
  have other_num: "cells (exec_calls ?calls s) (col @ show_nat j) = cells s (col @ show_nat j)"
    if "row = DInt i" "j \<noteq> i" "map_of COLUMNS g = Some col" for i j g col
  proof (rule other_row [OF that(3)])
    from that(1,2) show "show_nat j \<noteq> show_dval row" by (auto dest: show_nat_inj)
  qed
  have written: "cells (exec_calls ?calls s) (col @ show_dval row) = Some v"
    if "distinct (map fst items)" "(f, v) \<in> set items" "map_of COLUMNS f = Some col" for f v col
    using that by (rule update_loop_written)
  have app: "appended (exec_calls ?calls s) = appended s"
    by (rule exec_calls_appended_frame) (simp add: update_loop_no_append)
  have pos: "row = DInt (k + 2)"
    if "values = first # rest" "k < length rest" "deal = get_all_deals lower values ! k"
      "pstr ''row_number'' \<notin> set (map (normalize_header lower) first)" for first rest k
    using get_all_deals_row_number [OF that(2,4)] that(1,3) row by simp
  from row calls only other_row other_field other_num written app pos show ?thesis
    by (intro exI [of _ row] exI [of _ ?calls]) blast
qed

text \<open>
  C6 fails on a sheet with a header that normalizes to \<^verbatim>\<open>row_number\<close>. The deal found for
  \<^verbatim>\<open>acme\<close> is the first one, in row 2 of the sheet; it carries the text \<^verbatim>\<open>3\<close> as its row
  number, and the update of its stage writes \<^verbatim>\<open>G3\<close>, the stage of the deal in row 3, and
  leaves \<^verbatim>\<open>G2\<close> as it was.
\<close>

theorem update_writes_other_row:
  "find_deal ascii_lower crossed_grid (PStr (pstr ''acme''))
     = Inr (Some (get_all_deals ascii_lower crossed_grid ! 0)) \<and>
   snd (update_deal ascii_lower crossed_grid (PStr (pstr ''acme''))
          (PDict [(pstr ''stage'', PStr (pstr ''Won''))]))
     = [Update (pstr ''G3'') (PStr (pstr ''Won''))] \<and>
   cells crossed_sheet (pstr ''G3'') = Some (PStr (pstr ''Discovery'')) \<and>
   cells (exec_calls [Update (pstr ''G3'') (PStr (pstr ''Won''))] crossed_sheet) (pstr ''G3'')
     = Some (PStr (pstr ''Won'')) \<and>
   cells (exec_calls [Update (pstr ''G3'') (PStr (pstr ''Won''))] crossed_sheet) (pstr ''G2'')
     = Some (PStr (pstr ''Lead''))"
  by (simp add: crossed_grid_def crossed_sheet_def eval_deals update_deal_def COLUMNS_def
      exec_calls_def)

section \<open>Adding a deal\<close>

lemma map_of_setdefault:
  "map_of (setdefault d k v) k' =
     (case map_of d k' of Some x \<Rightarrow> Some x | None \<Rightarrow> if k' = k then Some v else None)"
  by (auto simp: setdefault_def map_add_def split: option.splits)

text \<open>
  C7. An add action whose \<^verbatim>\<open>deal\<close> is a dictionary (or is missing, which counts as the
  empty one) appends one row, built from the deal mapping after the defaults are filled
  in: \<^verbatim>\<open>date_entered\<close> and \<^verbatim>\<open>stage_date\<close> are today's date exactly when the mapping
  lacks them, \<^verbatim>\<open>stage\<close> is \<^verbatim>\<open>Lead\<close> exactly when the mapping lacks it, every key that
  is present keeps its value. The result names the company.
\<close>

theorem add_fills_defaults:
  assumes "dict_get kvs (pstr ''action'') PNone = PStr (pstr ''add'')"
    and "dict_get kvs (pstr ''deal'') (PDict []) = PDict deal_data"
  shows "\<exists>filled.
     (\<forall>k. map_of filled k =
        (case map_of deal_data k of
           Some v \<Rightarrow> Some v
         | None \<Rightarrow>
             if k = pstr ''date_entered'' \<or> k = pstr ''stage_date'' then Some (PStr today)
             else if k = pstr ''stage'' then Some (PStr (pstr ''Lead''))
             else None)) \<and>
     execute_action lower today values (PDict kvs) =
       (Inr (fst (add_deal filled)), snd (add_deal filled)) \<and>
     execute_action lower today values (PDict kvs) =
       (Inr [Lit (pstr ''Added new deal: ''),
             Val (dict_get deal_data (pstr ''company_name'') PNone)],
        [Append (map (\<lambda>field. dict_get filled field (PStr [])) FIELD_ORDER)])"
proof -
  let ?filled = "setdefault (setdefault (setdefault deal_data (pstr ''date_entered'') (PStr today))
                   (pstr ''stage_date'') (PStr today)) (pstr ''stage'') (PStr (pstr ''Lead''))"
  have m: "map_of ?filled k =
        (case map_of deal_data k of
           Some v \<Rightarrow> Some v
         | None \<Rightarrow>
             if k = pstr ''date_entered'' \<or> k = pstr ''stage_date'' then Some (PStr today)
             else if k = pstr ''stage'' then Some (PStr (pstr ''Lead''))
             else None)" for k
    by (simp add: map_of_setdefault split: option.splits)
  have e: "execute_action lower today values (PDict kvs) =
       (Inr (fst (add_deal ?filled)), snd (add_deal ?filled))"
    using assms by (simp add: execute_action_def Let_def split: prod.splits)
  have c: "dict_get ?filled (pstr ''company_name'') PNone
             = dict_get deal_data (pstr ''company_name'') PNone"
    by (simp add: dict_get_def m split: option.splits)
  have r: "add_deal ?filled =
       ([Lit (pstr ''Added new deal: ''), Val (dict_get deal_data (pstr ''company_name'') PNone)],
        [Append (map (\<lambda>field. dict_get ?filled field (PStr [])) FIELD_ORDER)])"
    by (simp add: add_deal_def c)
  from m e r show ?thesis
    by (intro exI [of _ ?filled]) simp
qed

theorem add_fills_defaults_witness:
  "execute_action ascii_lower (pstr ''2024-06-01'') []
     (PDict [(pstr ''action'', PStr (pstr ''add'')),
             (pstr ''deal'', PDict [(pstr ''company_name'', PStr (pstr ''Acme'')),
                                   (pstr ''stage'', PStr (pstr ''Lead''))])]) =
     (Inr [Lit (pstr ''Added new deal: ''), Val (PStr (pstr ''Acme''))],
      [Append [PStr (pstr ''Acme''), PStr [], PStr [], PStr [], PStr [],
               PStr (pstr ''2024-06-01''), PStr (pstr ''Lead''), PStr (pstr ''2024-06-01''),
               PStr [], PStr [], PStr [], PStr [], PStr [], PStr []]])"
proof -
  let ?kvs = "[(pstr ''action'', PStr (pstr ''add'')),
             (pstr ''deal'', PDict [(pstr ''company_name'', PStr (pstr ''Acme'')),
                                   (pstr ''stage'', PStr (pstr ''Lead''))])]"
  have a: "dict_get ?kvs (pstr ''action'') PNone = PStr (pstr ''add'')"
    by (simp add: dict_get_def)
  have b: "dict_get ?kvs (pstr ''deal'') (PDict []) =
             PDict [(pstr ''company_name'', PStr (pstr ''Acme'')),
                    (pstr ''stage'', PStr (pstr ''Lead''))]"
    by (simp add: dict_get_def)
  from add_fills_defaults [OF a b, of "pstr ''2024-06-01''" ascii_lower "[]"]
  show ?thesis by (auto simp: dict_get_def FIELD_ORDER_def)
qed

section \<open>Parsing the reply\<close>

lemma fence_eq: "fence = [96, 96, 96]"
  by (simp add: fence_def pstr_def)

lemma py_split_nonempty: "py_split sep s \<noteq> []"
  by (subst py_split.simps) (auto split: list.splits)

lemma py_split_Nil: "sep \<noteq> [] \<Longrightarrow> py_split sep [] = [[]]"
  by (subst py_split.simps) simp

lemma prefix_butlast: "prefix xs ys \<Longrightarrow> length xs < length ys \<Longrightarrow> prefix xs (butlast ys)"
  by (auto simp: prefix_def butlast_append)

text \<open>When the separator first occurs at the very end, the split has two parts.\<close>

lemma py_split_last:
  assumes "sep \<noteq> []"
  shows "\<not> sublist sep (butlast (x @ sep)) \<Longrightarrow> py_split sep (x @ sep) = [x, []]"
proof (induction x)
  case Nil
  from assms show ?case
    by (subst py_split.simps) (simp add: py_split_Nil)
next
  case (Cons c x)
  from assms have b: "butlast (c # x @ sep) = c # butlast (x @ sep)" by simp
  have np: "\<not> prefix sep (c # x @ sep)"
  proof
    assume "prefix sep (c # x @ sep)"
    then have "prefix sep (butlast (c # x @ sep))"
      by (rule prefix_butlast) simp
    then have "sublist sep (butlast ((c # x) @ sep))"
      by (simp add: prefix_imp_sublist del: butlast.simps)
    with Cons.prems show False by simp
  qed
  from Cons.prems b have "\<not> sublist sep (butlast (x @ sep))"
    by (simp add: sublist_Cons_right del: butlast.simps)
  then have "py_split sep (x @ sep) = [x, []]" by (rule Cons.IH)
  with np show ?case
    by (subst py_split.simps) simp
qed

text \<open>
  A reply that does not start with a fence goes to the parser stripped. A reply that is a
  text between an opening and a closing fence, where no fence starts before the closing
  one, goes to the parser as that text, without a leading \<^verbatim>\<open>json\<close>.
\<close>

lemma strip_fence_bare:
  "\<not> prefix fence (py_strip reply) \<Longrightarrow> strip_fence reply = Inr (py_strip reply)"
  by (simp add: strip_fence_def)

lemma strip_fence_wrapped:
  assumes "py_strip reply = fence @ body @ fence"
    and "\<not> sublist fence (body @ pstr ''``'')"
  shows "strip_fence reply = Inr (if prefix (pstr ''json'') body then drop 4 body else body)"
proof -
  have "butlast (body @ fence) = body @ pstr ''``''"
    by (simp add: fence_eq pstr_def butlast_append)
  with assms(2) have "py_split fence (body @ fence) = [body, []]"
    by (intro py_split_last) (simp_all add: fence_eq)
  then have "py_split fence (fence @ body @ fence) = [[], body, []]"
    by (subst py_split.simps) (simp add: fence_eq)
  with assms(1) show ?thesis
    by (simp add: strip_fence_def)
qed

lemma py_strip_id:
  "\<not> py_isspace a \<Longrightarrow> \<not> py_isspace b \<Longrightarrow> py_strip (a # xs @ [b]) = a # xs @ [b]"
  by (simp add: py_strip_def)

lemma fence_tail: "sublist fence (t @ pstr ''\<newline>``'') \<Longrightarrow> sublist fence t"
proof (induction t)
  case Nil
  then show ?case by (simp add: sublist_code fence_eq pstr_def)
next
  case (Cons a t)
  from Cons.prems have "prefix fence (a # t @ pstr ''\<newline>``'') \<or> sublist fence (t @ pstr ''\<newline>``'')"
    by (simp add: sublist_Cons_right)
  then show ?case
  proof
    assume "prefix fence (a # t @ pstr ''\<newline>``'')"
    then have "prefix fence (a # t)"
      by (cases t; cases "tl t") (auto simp: fence_eq pstr_def)
    then show ?thesis by (rule prefix_imp_sublist)
  next
    assume "sublist fence (t @ pstr ''\<newline>``'')"
    then have "sublist fence t" by (rule Cons.IH)
    then show ?thesis by (simp add: sublist_Cons_right)
  qed
qed

text \<open>
  A text without a fence inside, wrapped in a fence tagged \<^verbatim>\<open>json\<close>, reaches the JSON
  parser as the text between two line breaks.
\<close>

lemma strip_fence_fenced:
  assumes "\<not> sublist fence t"
  shows "strip_fence (pstr ''```json\<newline>'' @ t @ pstr ''\<newline>```'')
           = Inr (pstr ''\<newline>'' @ t @ pstr ''\<newline>'')"
proof -
  let ?reply = "pstr ''```json\<newline>'' @ t @ pstr ''\<newline>```''"
  let ?body = "pstr ''json\<newline>'' @ t @ pstr ''\<newline>''"
  have shape: "?reply = fence @ ?body @ fence"
    by (simp add: fence_eq pstr_def)
  have "?reply = 96 # (pstr ''``json\<newline>'' @ t @ pstr ''\<newline>``'') @ [96]"
    by (simp add: pstr_def)
  also have "py_strip \<dots> = \<dots>"
    by (rule py_strip_id) (simp_all add: py_isspace_def)
  finally have "py_strip ?reply = ?reply" by simp
  with shape have strip: "py_strip ?reply = fence @ ?body @ fence" by simp
  have inside: "\<not> sublist fence (?body @ pstr ''``'')"
  proof
    assume "sublist fence (?body @ pstr ''``'')"
    then have "sublist fence (pstr ''json\<newline>'' @ (t @ pstr ''\<newline>``''))"
      by (simp add: pstr_def)
    then have "sublist fence (t @ pstr ''\<newline>``'')"
      by (simp add: sublist_Cons_right fence_eq pstr_def)
    with assms show False by (blast dest: fence_tail)
  qed
  have "prefix (pstr ''json'') ?body" "drop 4 ?body = pstr ''\<newline>'' @ t @ pstr ''\<newline>''"
    by (simp_all add: pstr_def)
  with strip_fence_wrapped [OF strip inside] show ?thesis by simp
qed

text \<open>
  C4 fails where the JSON text itself holds a fence. The bare reply reaches the parser as
  it is; wrapped in a fence tagged \<^verbatim>\<open>json\<close>, the split cuts it at the inner fence and
  the parser is handed the text up to there, which ends inside a string.
\<close>

theorem fenced_reply_truncated:
  "strip_fence clarify_text = Inr clarify_text \<and>
   strip_fence clarify_fenced = Inr clarify_cut \<and>
   process_command (\<lambda>content. clarify_text) loads user_message current_deals
     = loads clarify_text \<and>
   process_command (\<lambda>content. clarify_fenced) loads user_message current_deals
     = loads clarify_cut"
proof -
  have a: "strip_fence clarify_text = Inr clarify_text"
    by (simp add: strip_fence_def py_strip_def py_isspace_def clarify_text_def quoted_def
        fence_eq pstr_def)
  have b: "strip_fence clarify_fenced = Inr clarify_cut"
    by (simp add: strip_fence_def py_strip_def py_isspace_def clarify_fenced_def
        clarify_cut_def clarify_text_def quoted_def fence_eq pstr_def py_split.simps)
  show ?thesis
    unfolding process_command_def Let_def a b by simp
qed

text \<open>
  C2, as the code has it. For a reply that, stripped of white space, does not start with
  a fence, the interpreter's outcome is the outcome of \<^verbatim>\<open>json.loads\<close> on the stripped
  reply; for a reply that is a text between an opening and a closing fence, where no
  other fence starts before the closing one, it is the outcome of \<^verbatim>\<open>json.loads\<close> on that
  text without a leading \<^verbatim>\<open>json\<close>. So on these replies the interpreter fails exactly
  when \<^verbatim>\<open>json.loads\<close> raises, and with the exception it raises. A dictionary whose
  \<^verbatim>\<open>action\<close> is missing or is none of the four known kinds is not a failure: the
  executor returns the text \<^verbatim>\<open>Unknown action: {action}\<close> and issues no request.
\<close>

theorem interpreter_fails_as_parser:
  "(\<not> prefix fence (py_strip (complete (user_content user_message current_deals))) \<longrightarrow>
      process_command complete loads user_message current_deals
        = loads (py_strip (complete (user_content user_message current_deals)))) \<and>
   (\<forall>body. py_strip (complete (user_content user_message current_deals)) = fence @ body @ fence \<longrightarrow>
      \<not> sublist fence (body @ pstr ''``'') \<longrightarrow>
      process_command complete loads user_message current_deals
        = loads (if prefix (pstr ''json'') body then drop 4 body else body)) \<and>
   (dict_get kvs (pstr ''action'') PNone
      \<notin> {PStr (pstr ''update''), PStr (pstr ''add''), PStr (pstr ''list''), PStr (pstr ''clarify'')} \<longrightarrow>
      execute_action lower today values (PDict kvs) =
        (Inr [Lit (pstr ''Unknown action: ''), Val (dict_get kvs (pstr ''action'') PNone)], []))"
proof (intro conjI impI allI)
  assume "\<not> prefix fence (py_strip (complete (user_content user_message current_deals)))"
  then show "process_command complete loads user_message current_deals
        = loads (py_strip (complete (user_content user_message current_deals)))"
    by (simp add: process_command_def strip_fence_bare)
next
  fix body
  assume "py_strip (complete (user_content user_message current_deals)) = fence @ body @ fence"
    and "\<not> sublist fence (body @ pstr ''``'')"
  then show "process_command complete loads user_message current_deals
        = loads (if prefix (pstr ''json'') body then drop 4 body else body)"
    by (simp add: process_command_def strip_fence_wrapped)
next
  assume "dict_get kvs (pstr ''action'') PNone
      \<notin> {PStr (pstr ''update''), PStr (pstr ''add''), PStr (pstr ''list''), PStr (pstr ''clarify'')}"
  then show "execute_action lower today values (PDict kvs) =
        (Inr [Lit (pstr ''Unknown action: ''), Val (dict_get kvs (pstr ''action'') PNone)], [])"
    by (simp add: execute_action_def Let_def)
qed

text \<open>
  A reply that is not JSON fails with the parser's exception, bare or wrapped in a fence;
  the action \<^verbatim>\<open>delete\<close> gets the diagnostic.
\<close>

theorem interpreter_fails_as_parser_witness:
  "process_command (\<lambda>content. pstr ''oops'') loads_braces (pstr ''hello'') []
     = Inl JSONDecodeError \<and>
   process_command (\<lambda>content. pstr ''```json\<newline>oops\<newline>```'') loads_braces (pstr ''hello'') []
     = Inl JSONDecodeError \<and>
   process_command (\<lambda>content. pstr ''```json\<newline>{}\<newline>```'') loads_braces (pstr ''hello'') []
     = Inr (PDict []) \<and>
   execute_action ascii_lower (pstr ''2024-06-01'') [] (PDict [(pstr ''action'', PStr (pstr ''delete''))]) =
     (Inr [Lit (pstr ''Unknown action: ''), Val (PStr (pstr ''delete''))], [])"
proof -
  have bare: "\<not> prefix fence (py_strip (pstr ''oops''))"
    "loads_braces (py_strip (pstr ''oops'')) = Inl JSONDecodeError"
    by (simp_all add: py_strip_def py_isspace_def fence_eq loads_braces_def json_space_def
        pstr_def)
  have w1: "py_strip (pstr ''```json\<newline>oops\<newline>```'') = fence @ pstr ''json\<newline>oops\<newline>'' @ fence"
    "\<not> sublist fence (pstr ''json\<newline>oops\<newline>'' @ pstr ''``'')"
    "loads_braces (if prefix (pstr ''json'') (pstr ''json\<newline>oops\<newline>'')
                   then drop 4 (pstr ''json\<newline>oops\<newline>'') else pstr ''json\<newline>oops\<newline>'')
       = Inl JSONDecodeError"
    by (simp_all add: py_strip_def py_isspace_def fence_eq loads_braces_def json_space_def
        pstr_def sublist_code)
  have w2: "py_strip (pstr ''```json\<newline>{}\<newline>```'') = fence @ pstr ''json\<newline>{}\<newline>'' @ fence"
    "\<not> sublist fence (pstr ''json\<newline>{}\<newline>'' @ pstr ''``'')"
    "loads_braces (if prefix (pstr ''json'') (pstr ''json\<newline>{}\<newline>'')
                   then drop 4 (pstr ''json\<newline>{}\<newline>'') else pstr ''json\<newline>{}\<newline>'')
       = Inr (PDict [])"
    by (simp_all add: py_strip_def py_isspace_def fence_eq loads_braces_def json_space_def
        pstr_def sublist_code)
  have act: "dict_get [(pstr ''action'', PStr (pstr ''delete''))] (pstr ''action'') PNone
      \<notin> {PStr (pstr ''update''), PStr (pstr ''add''), PStr (pstr ''list''), PStr (pstr ''clarify'')}"
    "dict_get [(pstr ''action'', PStr (pstr ''delete''))] (pstr ''action'') PNone
       = PStr (pstr ''delete'')"
    by (simp_all add: dict_get_def)
  from interpreter_fails_as_parser [of "\<lambda>content. pstr ''oops''" "pstr ''hello''" "[]"
      loads_braces "[(pstr ''action'', PStr (pstr ''delete''))]" ascii_lower "pstr ''2024-06-01''" "[]"]
    interpreter_fails_as_parser [of "\<lambda>content. pstr ''```json\<newline>oops\<newline>```''" "pstr ''hello''" "[]"
      loads_braces "[]" ascii_lower "[]" "[]"]
    interpreter_fails_as_parser [of "\<lambda>content. pstr ''```json\<newline>{}\<newline>```''" "pstr ''hello''" "[]"
      loads_braces "[]" ascii_lower "[]" "[]"]
    bare w1 w2 act
  show ?thesis by simp
qed

text \<open>
  C2 as stated fails: the reply \<^verbatim>\<open>{}\<close>, a valid JSON object without an \<^verbatim>\<open>action\<close> key,
  is returned by the interpreter and executed to a normal reply.
\<close>

theorem no_action_key_counterexample:
  "process_command (\<lambda>content. pstr ''{}'') loads_braces (pstr ''hello'') [] = Inr (PDict []) \<and>
   execute_action ascii_lower (pstr ''2024-06-01'') [] (PDict [])
     = (Inr [Lit (pstr ''Unknown action: ''), Val PNone], []) \<and>
   chat (\<lambda>content. pstr ''{}'') loads_braces ascii_lower (pstr ''2024-06-01'') [] (pstr ''hello'')
     = ([Lit (pstr ''Unknown action: ''), Val PNone], [])"
proof -
  have a: "strip_fence (pstr ''{}'') = Inr (pstr ''{}'')"
    by (simp add: strip_fence_def py_strip_def py_isspace_def fence_eq pstr_def)
  have b: "loads_braces (pstr ''{}'') = Inr (PDict [])"
    by (simp add: loads_braces_def json_space_def pstr_def)
  show ?thesis
    by (simp add: chat_def process_command_def a b execute_action_def dict_get_def
        get_all_deals_def)
qed

section \<open>A header named like the row number\<close>

text \<open>
  C8 fails on a sheet with a header that normalizes to \<^verbatim>\<open>row_number\<close>: the cell under it
  overwrites the row number of the deal, and an update of the deal then addresses the
  row named by that cell. The texts are ASCII, where \<^verbatim>\<open>str.lower\<close> is \<open>ascii_lower\<close>.
\<close>

theorem row_number_header_collision:
  "get_all_deals ascii_lower collision_grid
     = [[(pstr ''row_number'', DStr (pstr ''7'')), (pstr ''company_name'', DStr (pstr ''Acme''))]] \<and>
   snd (update_deal ascii_lower collision_grid (PStr (pstr ''Acme''))
          (PDict [(pstr ''stage'', PStr (pstr ''Won''))]))
     = [Update (pstr ''G7'') (PStr (pstr ''Won''))]"
  by (simp add: collision_grid_def eval_deals update_deal_def COLUMNS_def)

end
